theory Spec2Isabelle
  imports Main "HOL-Library.Word"
begin

unbundle bit_operations_syntax

section \<open>Basic types\<close>

type_synonym byte = "8 word"
type_synonym uint64 = "64 word"

section \<open>Channel frame types (rpc/channel.go)\<close>

text \<open>
  \<^verbatim>\<open>type ChannelPack int\<close> with eight named constants. The Go type is an
  open integer type: the constants are the only named members.
\<close>

type_synonym ChannelPack = int

definition TYPE_RPC :: ChannelPack where "TYPE_RPC = 0x12"
definition TYPE_HEATBEAT :: ChannelPack where "TYPE_HEATBEAT = 0x13"
definition TYPE_AMOP_REQ :: ChannelPack where "TYPE_AMOP_REQ = 0x30"
definition TYPE_AMOP_RESP :: ChannelPack where "TYPE_AMOP_RESP = 0x31"
definition TYPE_TOPIC_REPORT :: ChannelPack where "TYPE_TOPIC_REPORT = 0x32"
definition TYPE_TOPIC_MULTICAST :: ChannelPack where "TYPE_TOPIC_MULTICAST = 0x35"
definition TYPE_TX_COMMITTED :: ChannelPack where "TYPE_TX_COMMITTED = 0x1000"
definition TYPE_TX_BLOCKNUM :: ChannelPack where "TYPE_TX_BLOCKNUM = 0x1001"

text \<open>The frame kinds of the closed enumeration, named as the specification names them.\<close>

datatype frame_kind =
    PlainCallRequest
  | Heartbeat
  | AmopRequest
  | AmopResponse
  | TopicReport
  | TopicMulticast
  | TxCommitted
  | TxBlockNum

datatype frame_error = UnrecognizedFrameType

text \<open>The tag of a frame kind: the constant of the source that carries it.\<close>

fun encode_frame_kind :: "frame_kind \<Rightarrow> ChannelPack" where
  "encode_frame_kind PlainCallRequest = TYPE_RPC"
| "encode_frame_kind Heartbeat = TYPE_HEATBEAT"
| "encode_frame_kind AmopRequest = TYPE_AMOP_REQ"
| "encode_frame_kind AmopResponse = TYPE_AMOP_RESP"
| "encode_frame_kind TopicReport = TYPE_TOPIC_REPORT"
| "encode_frame_kind TopicMulticast = TYPE_TOPIC_MULTICAST"
| "encode_frame_kind TxCommitted = TYPE_TX_COMMITTED"
| "encode_frame_kind TxBlockNum = TYPE_TX_BLOCKNUM"

text \<open>
  Modelled from the spec: the decoder of frame-type tags. The source declares only the
  type and its constants; the function that classifies a tag read from the wire is not
  among the source files. The specification (4.5, 7) describes it as a total,
  exhaustive match over the eight members in which an unrecognized tag is a decode
  error, never a default.
\<close>

definition decode_frame_kind :: "ChannelPack \<Rightarrow> frame_error + frame_kind" where
  "decode_frame_kind t =
     (if t = TYPE_RPC then Inr PlainCallRequest
      else if t = TYPE_HEATBEAT then Inr Heartbeat
      else if t = TYPE_AMOP_REQ then Inr AmopRequest
      else if t = TYPE_AMOP_RESP then Inr AmopResponse
      else if t = TYPE_TOPIC_REPORT then Inr TopicReport
      else if t = TYPE_TOPIC_MULTICAST then Inr TopicMulticast
      else if t = TYPE_TX_COMMITTED then Inr TxCommitted
      else if t = TYPE_TX_BLOCKNUM then Inr TxBlockNum
      else Inl UnrecognizedFrameType)"

section \<open>Hexadecimal decoding\<close>

datatype hex_error = ErrEmptyString | ErrMissingPrefix | ErrOddLength | ErrSyntax

text \<open>The value of one hexadecimal digit, either case; \<open>None\<close> for any other character.\<close>

definition fromHexChar :: "char \<Rightarrow> byte option" where
  "fromHexChar c =
     (let n = (of_char c :: nat) in
      if 48 \<le> n \<and> n \<le> 57 then Some (of_nat (n - 48))
      else if 97 \<le> n \<and> n \<le> 102 then Some (of_nat (n - 97 + 10))
      else if 65 \<le> n \<and> n \<le> 70 then Some (of_nat (n - 65 + 10))
      else None)"

text \<open>
  Go's \<^verbatim>\<open>encoding/hex.DecodeString\<close>: pairs of digits, scanned from the left; the
  first character that is no digit is a syntax error, and a single trailing digit is a
  length error.
\<close>

fun hex_DecodeString :: "string \<Rightarrow> hex_error + byte list" where
  "hex_DecodeString [] = Inr []"
| "hex_DecodeString [p] =
     (case fromHexChar p of None \<Rightarrow> Inl ErrSyntax | Some a \<Rightarrow> Inl ErrOddLength)"
| "hex_DecodeString (p # q # rest) =
     (case fromHexChar p of
        None \<Rightarrow> Inl ErrSyntax
      | Some a \<Rightarrow>
          (case fromHexChar q of
             None \<Rightarrow> Inl ErrSyntax
           | Some b \<Rightarrow>
               (case hex_DecodeString rest of
                  Inl e \<Rightarrow> Inl e
                | Inr bs \<Rightarrow> Inr ((push_bit 4 a OR b) # bs))))"

definition has0xPrefix :: "string \<Rightarrow> bool" where
  "has0xPrefix input \<longleftrightarrow>
     length input \<ge> 2 \<and> input ! 0 = CHR ''0'' \<and> (input ! 1 = CHR ''x'' \<or> input ! 1 = CHR ''X'')"

text \<open>
  Modelled from the spec: \<^verbatim>\<open>hexutil.Decode\<close> of the repository's package
  \<^verbatim>\<open>common/hexutil\<close>, which is not among the source files. The specification (6)
  fixes the text form as hexadecimal digits after a two-character \<open>0x\<close> prefix and
  says that the sequence generator's text, which the source builds with the prefix
  \<open>0X\<close> and upper-case digits, decodes to raw bytes; so the prefix is accepted in
  either case and the digits in either case. An empty input, a missing prefix, an odd
  number of digits and a character that is no digit are the errors.
\<close>

definition Decode :: "string \<Rightarrow> hex_error + byte list" where
  "Decode input =
     (if length input = 0 then Inl ErrEmptyString
      else if \<not> has0xPrefix input then Inl ErrMissingPrefix
      else hex_DecodeString (drop 2 input))"

section \<open>Correlation sequences (rpc/channel.go)\<close>

text \<open>
  \<^verbatim>\<open>strings.Split(s, "-")\<close> for the one-character separator the source uses:
  the substrings between the separators, in order; the empty string gives one empty
  substring.
\<close>

fun Split :: "string \<Rightarrow> char \<Rightarrow> string list" where
  "Split [] sep = [[]]"
| "Split (c # cs) sep =
     (if c = sep then [] # Split cs sep
      else (case Split cs sep of [] \<Rightarrow> [[c]] | p # ps \<Rightarrow> (c # p) # ps))"

text \<open>\<^verbatim>\<open>strings.ToUpper\<close> on ASCII text: the letters a to z are mapped to A to Z.\<close>

definition ToUpper_char :: "char \<Rightarrow> char" where
  "ToUpper_char c =
     (let n = (of_char c :: nat) in if 97 \<le> n \<and> n \<le> 122 then char_of (n - 32) else c)"

definition ToUpper :: "string \<Rightarrow> string" where
  "ToUpper s = map ToUpper_char s"

text \<open>
  \<^verbatim>\<open>GenMsgSeq\<close>. The call \<^verbatim>\<open>uuid.New()\<close> reads an external random source and
  returns a string; the model takes that string as its argument. The loop appends the
  pieces to \<open>0X\<close> in order.
\<close>

definition GenMsgSeq :: "string \<Rightarrow> hex_error + byte list" where
  "GenMsgSeq uid0 =
     (let splited = Split uid0 (CHR ''-'');
          uid = foldl (@) ''0X'' splited
      in Decode (ToUpper uid))"

definition GenZeroSeq :: "hex_error + byte list" where
  "GenZeroSeq = Decode ''0x00000000000000000000000000000000''"

text \<open>
  The text the identifier source documents: five groups of 8, 4, 4, 4 and 12
  hexadecimal digits, separated by dashes. In a random (version 4) identifier the third
  group starts with the digit 4.
\<close>

definition is_hex_digit :: "char \<Rightarrow> bool" where
  "is_hex_digit c \<longleftrightarrow> fromHexChar c \<noteq> None"

definition is_uuid_text :: "string \<Rightarrow> bool" where
  "is_uuid_text uid \<longleftrightarrow>
     map length (Split uid (CHR ''-'')) = [8, 4, 4, 4, 12] \<and>
     list_all is_hex_digit (concat (Split uid (CHR ''-'')))"

definition is_uuid_v4_text :: "string \<Rightarrow> bool" where
  "is_uuid_v4_text uid \<longleftrightarrow>
     is_uuid_text uid \<and> take 1 (Split uid (CHR ''-'') ! 2) = ''4''"

section \<open>Block nonce (core/types)\<close>

text \<open>
  \<^verbatim>\<open>type BlockNonce [8]byte\<close>: a byte list; that it has eight elements is what the
  Go type says, and is a hypothesis where it matters.
\<close>

type_synonym BlockNonce = "byte list"

text \<open>\<^verbatim>\<open>binary.BigEndian.PutUint64\<close> into an array of eight bytes.\<close>

definition PutUint64 :: "uint64 \<Rightarrow> byte list" where
  "PutUint64 v =
     [ucast (drop_bit 56 v), ucast (drop_bit 48 v), ucast (drop_bit 40 v), ucast (drop_bit 32 v),
      ucast (drop_bit 24 v), ucast (drop_bit 16 v), ucast (drop_bit 8 v), ucast v]"

text \<open>\<^verbatim>\<open>binary.BigEndian.Uint64\<close> of an array of eight bytes.\<close>

definition BigEndian_Uint64 :: "byte list \<Rightarrow> uint64" where
  "BigEndian_Uint64 b =
     ucast (b ! 7) OR push_bit 8 (ucast (b ! 6)) OR push_bit 16 (ucast (b ! 5))
       OR push_bit 24 (ucast (b ! 4)) OR push_bit 32 (ucast (b ! 3))
       OR push_bit 40 (ucast (b ! 2)) OR push_bit 48 (ucast (b ! 1))
       OR push_bit 56 (ucast (b ! 0))"

definition EncodeNonce :: "uint64 \<Rightarrow> BlockNonce" where
  "EncodeNonce i = PutUint64 i"

definition Uint64 :: "BlockNonce \<Rightarrow> uint64" where
  "Uint64 n = BigEndian_Uint64 n"


section \<open>Canonical encoding (RLP)\<close>

text \<open>
  Modelled from the spec: the encoder \<^verbatim>\<open>rlp.Encode\<close> of the repository's package
  \<^verbatim>\<open>rlp\<close>, which is not among the source files. The specification (4.1) gives
  the rules: an integer is its minimal big-endian byte string (zero is the empty
  string), a byte string is itself behind a length prefix, a list is the concatenation
  of its encoded elements behind a length prefix over the concatenation, and a negative
  integer is rejected before anything is encoded (7). The prefix bytes are those of
  the recursive-length-prefix format the package implements: a single byte below
  \<open>0x80\<close> is its own encoding, a string of fewer than 56 bytes has the prefix
  \<open>0x80 + length\<close>, a longer one \<open>0xB7 + n\<close> followed by the \<open>n\<close> bytes of the
  length; lists use \<open>0xC0\<close> and \<open>0xF7\<close> in the same way. A length is a
  natural number here and a 64-bit number in Go; the two agree below \<open>2 ^ 64\<close>.
\<close>

datatype rlp_error = ErrNegativeBigInt

text \<open>The minimal big-endian bytes of a number: no leading zero byte, none at all for zero.\<close>

fun big_endian_minimal :: "nat \<Rightarrow> byte list" where
  "big_endian_minimal n =
     (if n = 0 then [] else big_endian_minimal (n div 256) @ [of_nat (n mod 256)])"

declare big_endian_minimal.simps [simp del]

definition string_header :: "nat \<Rightarrow> byte list" where
  "string_header n =
     (if n < 56 then [of_nat (0x80 + n)]
      else (let s = big_endian_minimal n in of_nat (0xB7 + length s) # s))"

definition list_header :: "nat \<Rightarrow> byte list" where
  "list_header n =
     (if n < 56 then [of_nat (0xC0 + n)]
      else (let s = big_endian_minimal n in of_nat (0xF7 + length s) # s))"

definition encode_bytes :: "byte list \<Rightarrow> byte list" where
  "encode_bytes b =
     (if length b = 1 \<and> hd b < 0x80 then b else string_header (length b) @ b)"

text \<open>
  The values the encoder is given for a header: byte strings and byte arrays, unsigned
  64-bit integers, arbitrary-precision integers, and lists of values.
\<close>

datatype rlp_value =
    Bytes "byte list"
  | Uint uint64
  | BigInt int
  | List "rlp_value list"

text \<open>
  Modelled from the spec: \<^verbatim>\<open>rlp.Encode\<close> on such a value (package \<^verbatim>\<open>rlp\<close>, not
  among the source files), by the rules above. An error is returned in place of any
  bytes.
\<close>

fun encode :: "rlp_value \<Rightarrow> rlp_error + byte list"
  and encode_all :: "rlp_value list \<Rightarrow> rlp_error + byte list" where
  "encode (Bytes b) = Inr (encode_bytes b)"
| "encode (Uint i) = Inr (encode_bytes (big_endian_minimal (unat i)))"
| "encode (BigInt i) =
     (if i < 0 then Inl ErrNegativeBigInt
      else Inr (encode_bytes (big_endian_minimal (nat i))))"
| "encode (List vs) =
     (case encode_all vs of
        Inl e \<Rightarrow> Inl e
      | Inr payload \<Rightarrow> Inr (list_header (length payload) @ payload))"
| "encode_all [] = Inr []"
| "encode_all (v # vs) =
     (case encode v of
        Inl e \<Rightarrow> Inl e
      | Inr b \<Rightarrow> (case encode_all vs of Inl e \<Rightarrow> Inl e | Inr bs \<Rightarrow> Inr (b @ bs)))"

text \<open>The number a big-endian byte string stands for.\<close>

definition be_val :: "byte list \<Rightarrow> nat" where
  "be_val bs = foldl (\<lambda>acc b. 256 * acc + unat b) 0 bs"


section \<open>Content hash (Keccak)\<close>

text \<open>
  Modelled from the spec: the hasher \<^verbatim>\<open>sha3.NewLegacyKeccak256\<close> of the external
  package \<^verbatim>\<open>golang.org/x/crypto/sha3\<close>, which is not among the source files. The
  specification (4.2) asks for the digest of 32 bytes of the Keccak family with the
  original Keccak-256 padding. The model is the sponge over the permutation
  Keccak-f[1600] with a rate of 136 bytes; the state is 25 lanes of 64 bits, lane
  \<open>(x, y)\<close> at index \<open>x + 5 * y\<close>. The byte that starts the padding is a parameter
  of the sponge: \<open>0x01\<close> for the original Keccak, \<open>0x06\<close> for NIST SHA3.
\<close>

definition rotl64 :: "uint64 \<Rightarrow> nat \<Rightarrow> uint64" where
  "rotl64 w n = push_bit n w OR drop_bit (64 - n) w"

definition keccak_rc :: "uint64 list" where
  "keccak_rc =
    [0x0000000000000001, 0x0000000000008082, 0x800000000000808A, 0x8000000080008000,
     0x000000000000808B, 0x0000000080000001, 0x8000000080008081, 0x8000000000008009,
     0x000000000000008A, 0x0000000000000088, 0x0000000080008009, 0x000000008000000A,
     0x000000008000808B, 0x800000000000008B, 0x8000000000008089, 0x8000000000008003,
     0x8000000000008002, 0x8000000000000080, 0x000000000000800A, 0x800000008000000A,
     0x8000000080008081, 0x8000000000008080, 0x0000000080000001, 0x8000000080008008]"

text \<open>The step \<open>theta\<close>: column parities, their combination, and the update of every lane.\<close>

fun theta_c :: "uint64 list \<Rightarrow> uint64 list" where
  "theta_c [a0, a1, a2, a3, a4,
           a5, a6, a7, a8, a9,
           a10, a11, a12, a13, a14,
           a15, a16, a17, a18, a19,
           a20, a21, a22, a23, a24] =
     [a0 XOR a5 XOR a10 XOR a15 XOR a20,
      a1 XOR a6 XOR a11 XOR a16 XOR a21,
      a2 XOR a7 XOR a12 XOR a17 XOR a22,
      a3 XOR a8 XOR a13 XOR a18 XOR a23,
      a4 XOR a9 XOR a14 XOR a19 XOR a24]"
| "theta_c a = []"

fun theta_d :: "uint64 list \<Rightarrow> uint64 list" where
  "theta_d [c0, c1, c2, c3, c4] =
     [c4 XOR rotl64 c1 1,
      c0 XOR rotl64 c2 1,
      c1 XOR rotl64 c3 1,
      c2 XOR rotl64 c4 1,
      c3 XOR rotl64 c0 1]"
| "theta_d c = []"

fun theta_x :: "uint64 list \<Rightarrow> uint64 list \<Rightarrow> uint64 list" where
  "theta_x [d0, d1, d2, d3, d4]
     [a0, a1, a2, a3, a4,
     a5, a6, a7, a8, a9,
     a10, a11, a12, a13, a14,
     a15, a16, a17, a18, a19,
     a20, a21, a22, a23, a24] =
     [a0 XOR d0, a1 XOR d1, a2 XOR d2, a3 XOR d3, a4 XOR d4,
      a5 XOR d0, a6 XOR d1, a7 XOR d2, a8 XOR d3, a9 XOR d4,
      a10 XOR d0, a11 XOR d1, a12 XOR d2, a13 XOR d3, a14 XOR d4,
      a15 XOR d0, a16 XOR d1, a17 XOR d2, a18 XOR d3, a19 XOR d4,
      a20 XOR d0, a21 XOR d1, a22 XOR d2, a23 XOR d3, a24 XOR d4]"
| "theta_x d a = a"

definition theta :: "uint64 list \<Rightarrow> uint64 list" where
  "theta a = theta_x (theta_d (theta_c a)) a"

text \<open>The steps \<open>rho\<close> and \<open>pi\<close>: every lane is rotated and moved.\<close>

fun rho_pi :: "uint64 list \<Rightarrow> uint64 list" where
  "rho_pi [a0, a1, a2, a3, a4,
          a5, a6, a7, a8, a9,
          a10, a11, a12, a13, a14,
          a15, a16, a17, a18, a19,
          a20, a21, a22, a23, a24] =
     [rotl64 a0 0, rotl64 a6 44, rotl64 a12 43, rotl64 a18 21, rotl64 a24 14,
      rotl64 a3 28, rotl64 a9 20, rotl64 a10 3, rotl64 a16 45, rotl64 a22 61,
      rotl64 a1 1, rotl64 a7 6, rotl64 a13 25, rotl64 a19 8, rotl64 a20 18,
      rotl64 a4 27, rotl64 a5 36, rotl64 a11 10, rotl64 a17 15, rotl64 a23 56,
      rotl64 a2 62, rotl64 a8 55, rotl64 a14 39, rotl64 a15 41, rotl64 a21 2]"
| "rho_pi a = a"

text \<open>The step \<open>chi\<close>, row by row.\<close>

fun chi :: "uint64 list \<Rightarrow> uint64 list" where
  "chi [b0, b1, b2, b3, b4,
       b5, b6, b7, b8, b9,
       b10, b11, b12, b13, b14,
       b15, b16, b17, b18, b19,
       b20, b21, b22, b23, b24] =
     [b0 XOR (NOT b1 AND b2), b1 XOR (NOT b2 AND b3),
      b2 XOR (NOT b3 AND b4), b3 XOR (NOT b4 AND b0),
      b4 XOR (NOT b0 AND b1), b5 XOR (NOT b6 AND b7),
      b6 XOR (NOT b7 AND b8), b7 XOR (NOT b8 AND b9),
      b8 XOR (NOT b9 AND b5), b9 XOR (NOT b5 AND b6),
      b10 XOR (NOT b11 AND b12), b11 XOR (NOT b12 AND b13),
      b12 XOR (NOT b13 AND b14), b13 XOR (NOT b14 AND b10),
      b14 XOR (NOT b10 AND b11), b15 XOR (NOT b16 AND b17),
      b16 XOR (NOT b17 AND b18), b17 XOR (NOT b18 AND b19),
      b18 XOR (NOT b19 AND b15), b19 XOR (NOT b15 AND b16),
      b20 XOR (NOT b21 AND b22), b21 XOR (NOT b22 AND b23),
      b22 XOR (NOT b23 AND b24), b23 XOR (NOT b24 AND b20),
      b24 XOR (NOT b20 AND b21)]"
| "chi b = b"

text \<open>The step \<open>iota\<close>: the round constant goes into lane \<open>(0, 0)\<close>.\<close>

fun iota :: "uint64 \<Rightarrow> uint64 list \<Rightarrow> uint64 list" where
  "iota rc (a0 # rest) = (a0 XOR rc) # rest"
| "iota rc [] = []"

definition keccak_round :: "uint64 list \<Rightarrow> uint64 \<Rightarrow> uint64 list" where
  "keccak_round a rc = iota rc (chi (rho_pi (theta a)))"

definition keccakF1600 :: "uint64 list \<Rightarrow> uint64 list" where
  "keccakF1600 a = foldl keccak_round a keccak_rc"

definition rate :: nat where
  "rate = 136"

text \<open>A lane is eight bytes, little-endian.\<close>

definition le64 :: "byte list \<Rightarrow> uint64" where
  "le64 bs = foldr (\<lambda>b acc. ucast b OR push_bit 8 acc) bs 0"

fun lanes :: "byte list \<Rightarrow> uint64 list" where
  "lanes (a # b # c # d # e # f # g # h # rest) = le64 [a, b, c, d, e, f, g, h] # lanes rest"
| "lanes bs = []"

definition lane_bytes :: "uint64 \<Rightarrow> byte list" where
  "lane_bytes w =
     [ucast w, ucast (drop_bit 8 w), ucast (drop_bit 16 w), ucast (drop_bit 24 w),
      ucast (drop_bit 32 w), ucast (drop_bit 40 w), ucast (drop_bit 48 w), ucast (drop_bit 56 w)]"

fun xor_lanes :: "uint64 list \<Rightarrow> uint64 list \<Rightarrow> uint64 list" where
  "xor_lanes (a # as) (l # ls) = (a XOR l) # xor_lanes as ls"
| "xor_lanes as [] = as"
| "xor_lanes [] ls = []"

text \<open>One block of \<open>rate\<close> bytes is added into the first 17 lanes of the state.\<close>

definition xor_in :: "uint64 list \<Rightarrow> byte list \<Rightarrow> uint64 list" where
  "xor_in a block = xor_lanes a (lanes block)"

text \<open>
  Padding to a whole number of blocks: the domain byte, zeros, and the top bit of the
  last byte of the block.
\<close>

definition pad :: "byte \<Rightarrow> byte list \<Rightarrow> byte list" where
  "pad ds msg =
     (let q = rate - length msg mod rate
      in if q = 1 then msg @ [ds XOR 0x80]
         else msg @ [ds] @ replicate (q - 2) 0 @ [0x80])"

function absorb :: "uint64 list \<Rightarrow> byte list \<Rightarrow> uint64 list" where
  "absorb a bs =
     (if length bs < rate then a
      else absorb (keccakF1600 (xor_in a (take rate bs))) (drop rate bs))"
  by pat_completeness auto
termination
  by (relation "measure (\<lambda>(a, bs). length bs)") (auto simp: rate_def)

declare absorb.simps [simp del]

text \<open>The digest is the first 32 bytes of the state.\<close>

definition squeeze :: "uint64 list \<Rightarrow> byte list" where
  "squeeze a = take 32 (concat (map lane_bytes a))"

definition zero_state :: "uint64 list" where
  "zero_state = replicate 25 0"

text \<open>
  Modelled from the spec: the hash functions of \<^verbatim>\<open>golang.org/x/crypto/sha3\<close> (not
  among the source files) as the sponge over the padded message, with the digest of 32
  bytes the specification (4.2) asks for.
\<close>

definition sponge :: "byte \<Rightarrow> byte list \<Rightarrow> byte list" where
  "sponge ds msg = squeeze (absorb zero_state (pad ds msg))"

text \<open>
  Modelled from the spec: \<^verbatim>\<open>sha3.NewLegacyKeccak256\<close>, written to and summed: the
  sponge with the padding byte \<open>0x01\<close> of the original Keccak-256.
\<close>

definition LegacyKeccak256 :: "byte list \<Rightarrow> byte list" where
  "LegacyKeccak256 = sponge 0x01"


section \<open>Block header and its hash (core/types)\<close>

text \<open>
  The struct \<^verbatim>\<open>Header\<close>, fields in the order of the declaration. The types
  \<^verbatim>\<open>common.Hash\<close>, \<^verbatim>\<open>common.Address\<close> and \<^verbatim>\<open>Bloom\<close> are byte arrays of 32, 20
  and 256 bytes (specification, 3); \<^verbatim>\<open>BlockNonce\<close> is an array of 8 bytes. An array
  is a byte list here, and its length is part of \<open>valid_Header\<close>. The two
  \<^verbatim>\<open>*big.Int\<close> fields are the integers they point to.
\<close>

record Header =
  ParentHash :: "byte list"
  UncleHash :: "byte list"
  Coinbase :: "byte list"
  Root :: "byte list"
  TxHash :: "byte list"
  ReceiptHash :: "byte list"
  Bloom :: "byte list"
  Difficulty :: int
  Number :: int
  GasLimit :: uint64
  GasUsed :: uint64
  Time :: uint64
  Extra :: "byte list"
  MixDigest :: "byte list"
  RandomId :: BlockNonce



text \<open>
  The encoder writes a struct as the list of its fields, in the order of the
  declaration.
\<close>

definition Header_fields :: "Header \<Rightarrow> rlp_value list" where
  "Header_fields h =
     [Bytes (ParentHash h), Bytes (UncleHash h), Bytes (Coinbase h), Bytes (Root h),
      Bytes (TxHash h), Bytes (ReceiptHash h), Bytes (Bloom h),
      BigInt (Difficulty h), BigInt (Number h),
      Uint (GasLimit h), Uint (GasUsed h), Uint (Time h),
      Bytes (Extra h), Bytes (MixDigest h), Bytes (RandomId h)]"

definition EncodeHeader :: "Header \<Rightarrow> rlp_error + byte list" where
  "EncodeHeader h = encode (List (Header_fields h))"

text \<open>
  The byte strings of the fifteen fields as the encoder sees them: the integers in their
  minimal big-endian form.
\<close>

definition Header_strings :: "Header \<Rightarrow> byte list list" where
  "Header_strings h =
     [ParentHash h, UncleHash h, Coinbase h, Root h, TxHash h, ReceiptHash h, Bloom h,
      big_endian_minimal (nat (Difficulty h)), big_endian_minimal (nat (Number h)),
      big_endian_minimal (unat (GasLimit h)), big_endian_minimal (unat (GasUsed h)),
      big_endian_minimal (unat (Time h)),
      Extra h, MixDigest h, RandomId h]"

text \<open>
  \<^verbatim>\<open>rlpHash\<close>: the encoder writes into the hasher and its error is not looked at; an
  encoder that fails has written nothing, so the digest is then that of no bytes.
\<close>

definition rlpHash :: "rlp_value \<Rightarrow> byte list" where
  "rlpHash x = LegacyKeccak256 (case encode x of Inl e \<Rightarrow> [] | Inr bs \<Rightarrow> bs)"

definition Hash :: "Header \<Rightarrow> byte list" where
  "Hash h = rlpHash (List (Header_fields h))"

text \<open>
  The header of the specification's concrete scenario (8): every field zero or empty.
\<close>

definition zero_Header :: Header where
  "zero_Header =
     \<lparr>ParentHash = replicate 32 0, UncleHash = replicate 32 0, Coinbase = replicate 20 0,
      Root = replicate 32 0, TxHash = replicate 32 0, ReceiptHash = replicate 32 0,
      Bloom = replicate 256 0, Difficulty = 0, Number = 0,
      GasLimit = 0, GasUsed = 0, Time = 0,
      Extra = [], MixDigest = replicate 32 0, RandomId = replicate 8 0\<rparr>"












section \<open>Properties\<close>

lemmas ChannelPack_defs =
  TYPE_RPC_def TYPE_HEATBEAT_def TYPE_AMOP_REQ_def TYPE_AMOP_RESP_def
  TYPE_TOPIC_REPORT_def TYPE_TOPIC_MULTICAST_def TYPE_TX_COMMITTED_def TYPE_TX_BLOCKNUM_def

subsection \<open>Frame types\<close>

text \<open>
  Claim C5. The eight constants have the tag values 0x12, 0x13, 0x30, 0x31, 0x32, 0x35,
  0x1000 and 0x1001, and the eight values are pairwise distinct.
\<close>

theorem ChannelPack_tag_values:
  "TYPE_RPC = 0x12 \<and> TYPE_HEATBEAT = 0x13 \<and> TYPE_AMOP_REQ = 0x30 \<and>
   TYPE_AMOP_RESP = 0x31 \<and> TYPE_TOPIC_REPORT = 0x32 \<and> TYPE_TOPIC_MULTICAST = 0x35 \<and>
   TYPE_TX_COMMITTED = 0x1000 \<and> TYPE_TX_BLOCKNUM = 0x1001 \<and>
   distinct [TYPE_RPC, TYPE_HEATBEAT, TYPE_AMOP_REQ, TYPE_AMOP_RESP, TYPE_TOPIC_REPORT,
             TYPE_TOPIC_MULTICAST, TYPE_TX_COMMITTED, TYPE_TX_BLOCKNUM]"
  by (simp add: ChannelPack_defs)

lemma decode_encode_frame_kind: "decode_frame_kind (encode_frame_kind k) = Inr k"
  by (cases k) (simp_all add: decode_frame_kind_def ChannelPack_defs)

lemma decode_frame_kind_Inr: "decode_frame_kind t = Inr k \<Longrightarrow> encode_frame_kind k = t"
  by (auto simp: decode_frame_kind_def split: if_splits)

lemma decode_frame_kind_unknown:
  assumes "t \<notin> {TYPE_RPC, TYPE_HEATBEAT, TYPE_AMOP_REQ, TYPE_AMOP_RESP, TYPE_TOPIC_REPORT,
                TYPE_TOPIC_MULTICAST, TYPE_TX_COMMITTED, TYPE_TX_BLOCKNUM}"
  shows "decode_frame_kind t = Inl UnrecognizedFrameType"
  using assms by (simp add: decode_frame_kind_def)

text \<open>
  Claim C9. Decoding a tag is total and exhaustive over the eight members: 0x13 is the
  heartbeat, 0x1001 the transaction-block-number notification, and every tag outside
  the eight members, 0x99 among them, is a decode error; a tag is classified as a kind
  only when it is that kind's tag.
\<close>

theorem decode_frame_kind_total_exhaustive:
  "decode_frame_kind 0x13 = Inr Heartbeat \<and>
   decode_frame_kind 0x1001 = Inr TxBlockNum \<and>
   decode_frame_kind 0x99 = Inl UnrecognizedFrameType \<and>
   (t \<notin> {TYPE_RPC, TYPE_HEATBEAT, TYPE_AMOP_REQ, TYPE_AMOP_RESP, TYPE_TOPIC_REPORT,
          TYPE_TOPIC_MULTICAST, TYPE_TX_COMMITTED, TYPE_TX_BLOCKNUM} \<longrightarrow>
      decode_frame_kind t = Inl UnrecognizedFrameType) \<and>
   (decode_frame_kind t = Inr k \<longrightarrow> encode_frame_kind k = t) \<and>
   decode_frame_kind (encode_frame_kind k) = Inr k"
proof -
  have "decode_frame_kind 0x13 = Inr Heartbeat"
    "decode_frame_kind 0x1001 = Inr TxBlockNum"
    "decode_frame_kind 0x99 = Inl UnrecognizedFrameType"
    by (simp_all add: decode_frame_kind_def ChannelPack_defs)
  then show ?thesis
    using decode_frame_kind_unknown [of t] decode_frame_kind_Inr [of t k]
      decode_encode_frame_kind [of k]
    by blast
qed

theorem decode_frame_kind_total_exhaustive_witness:
  "(0x99 :: ChannelPack) \<notin> {TYPE_RPC, TYPE_HEATBEAT, TYPE_AMOP_REQ, TYPE_AMOP_RESP,
      TYPE_TOPIC_REPORT, TYPE_TOPIC_MULTICAST, TYPE_TX_COMMITTED, TYPE_TX_BLOCKNUM} \<and>
   decode_frame_kind 0x99 = Inl UnrecognizedFrameType \<and>
   decode_frame_kind 0x30 = Inr AmopRequest \<and> encode_frame_kind AmopRequest = 0x30"
proof -
  have a: "(0x99 :: ChannelPack) \<notin> {TYPE_RPC, TYPE_HEATBEAT, TYPE_AMOP_REQ, TYPE_AMOP_RESP,
      TYPE_TOPIC_REPORT, TYPE_TOPIC_MULTICAST, TYPE_TX_COMMITTED, TYPE_TX_BLOCKNUM}"
    by (simp add: ChannelPack_defs)
  have b: "decode_frame_kind 0x30 = Inr AmopRequest"
    by (simp add: decode_frame_kind_def ChannelPack_defs)
  from a b decode_frame_kind_total_exhaustive [of "0x99" AmopRequest]
    decode_frame_kind_total_exhaustive [of "0x30" AmopRequest]
  show ?thesis by simp
qed

subsection \<open>Block nonce\<close>

lemma octet_cases:
  assumes "n < (64::nat)"
  obtains "n < 8" | "8 \<le> n" "n < 16" | "16 \<le> n" "n < 24" | "24 \<le> n" "n < 32"
    | "32 \<le> n" "n < 40" | "40 \<le> n" "n < 48" | "48 \<le> n" "n < 56" | "56 \<le> n" "n < 64"
  using assms by linarith

lemma Uint64_EncodeNonce: "Uint64 (EncodeNonce i) = i"
proof (rule bit_word_eqI)
  fix n :: nat
  assume "n < LENGTH(64)"
  then have n: "n < 64" by simp
  have *: "bit (Uint64 (EncodeNonce i)) n \<longleftrightarrow>
        (n < 8 \<and> bit i n \<or>
         8 \<le> n \<and> n < 16 \<and> bit i n \<or>
         16 \<le> n \<and> n < 24 \<and> bit i n \<or>
         24 \<le> n \<and> n < 32 \<and> bit i n \<or>
         32 \<le> n \<and> n < 40 \<and> bit i n \<or>
         40 \<le> n \<and> n < 48 \<and> bit i n \<or>
         48 \<le> n \<and> n < 56 \<and> bit i n \<or>
         56 \<le> n \<and> n < 64 \<and> bit i n)"
    using n unfolding Uint64_def EncodeNonce_def PutUint64_def BigEndian_Uint64_def
    by (simp add: bit_or_iff bit_push_bit_iff bit_ucast_iff bit_drop_bit_eq less_diff_conv2
        cong: conj_cong)
  from n show "bit (Uint64 (EncodeNonce i)) n \<longleftrightarrow> bit i n"
    unfolding * by (cases n rule: octet_cases) simp_all
qed

lemma EncodeNonce_Uint64:
  assumes "length n = 8"
  shows "EncodeNonce (Uint64 n) = n"
proof -
  from assms obtain a b c d e f g h where n: "n = [a, b, c, d, e, f, g, h]"
    by (auto simp: length_Suc_conv numeral_eq_Suc)
  show ?thesis
    unfolding Uint64_def EncodeNonce_def PutUint64_def BigEndian_Uint64_def n
    apply simp
    apply (intro conjI bit_word_eqI)
           apply (auto simp add: bit_or_iff bit_push_bit_iff bit_ucast_iff bit_drop_bit_eq
        cong: conj_cong dest: bit_imp_le_length)
    done
qed

text \<open>
  Claim C10. The block nonce and its 64-bit integer are big-endian inverses of each
  other: \<open>EncodeNonce i\<close> has eight bytes, most significant first, reading them back
  gives \<open>i\<close>, and encoding what an eight-byte nonce reads as gives the nonce.
\<close>

theorem BlockNonce_roundtrip:
  "Uint64 (EncodeNonce i) = i \<and>
   (length n = 8 \<longrightarrow> EncodeNonce (Uint64 n) = n) \<and>
   length (EncodeNonce i) = 8 \<and>
   EncodeNonce 0x0102030405060708 = [1, 2, 3, 4, 5, 6, 7, 8]"
proof -
  have "length (EncodeNonce i) = 8"
    by (simp add: EncodeNonce_def PutUint64_def)
  moreover have "EncodeNonce 0x0102030405060708 = [1, 2, 3, 4, 5, 6, 7, 8]"
    by (simp add: EncodeNonce_def PutUint64_def)
  ultimately show ?thesis
    using Uint64_EncodeNonce [of i] EncodeNonce_Uint64 [of n] by blast
qed

theorem BlockNonce_roundtrip_witness:
  "length [0xDE, 0xAD, 0xBE, 0xEF, 0x00, 0x01, 0x02, 0x03 :: byte] = 8 \<and>
   Uint64 [0xDE, 0xAD, 0xBE, 0xEF, 0x00, 0x01, 0x02, 0x03] = 0xDEADBEEF00010203 \<and>
   EncodeNonce (Uint64 [0xDE, 0xAD, 0xBE, 0xEF, 0x00, 0x01, 0x02, 0x03]) =
     [0xDE, 0xAD, 0xBE, 0xEF, 0x00, 0x01, 0x02, 0x03]"
proof -
  have l: "length [0xDE, 0xAD, 0xBE, 0xEF, 0x00, 0x01, 0x02, 0x03 :: byte] = 8" by simp
  have u: "Uint64 [0xDE, 0xAD, 0xBE, 0xEF, 0x00, 0x01, 0x02, 0x03] = 0xDEADBEEF00010203"
    by (simp add: Uint64_def BigEndian_Uint64_def)
  from l BlockNonce_roundtrip [of 0 "[0xDE, 0xAD, 0xBE, 0xEF, 0x00, 0x01, 0x02, 0x03]"]
  have "EncodeNonce (Uint64 [0xDE, 0xAD, 0xBE, 0xEF, 0x00, 0x01, 0x02, 0x03]) =
     [0xDE, 0xAD, 0xBE, 0xEF, 0x00, 0x01, 0x02, 0x03]"
    by blast
  with l u show ?thesis by blast
qed

subsection \<open>Correlation sequences\<close>

text \<open>
  Claim C8. \<open>GenZeroSeq\<close> returns 16 bytes of value 0 and no error; it has no
  argument and no state, so every call returns this value.
\<close>

theorem GenZeroSeq_sixteen_zero_bytes:
  "GenZeroSeq = Inr [0, 0, 0, 0, 0, 0, 0, 0, 0, 0, 0, 0, 0, 0, 0, 0] \<and>
   GenZeroSeq = Inr (replicate 16 0)"
  by code_simp

lemma fromHexChar_ToUpper_char: "fromHexChar (ToUpper_char c) = fromHexChar c"
proof -
  define n where "n = (of_char c :: nat)"
  have n: "n < 256" by (simp add: n_def)
  consider "n < 97" | "97 \<le> n" "n \<le> 102" | "103 \<le> n" "n \<le> 122" | "122 < n"
    by linarith
  then show ?thesis
  proof cases
    case 1
    then show ?thesis by (simp add: ToUpper_char_def Let_def n_def [symmetric])
  next
    case 2
    have m: "n - 32 < 256"
      by (rule le_less_trans [OF diff_le_self n])
    from 2 have u: "(of_char (ToUpper_char c) :: nat) = n - 32"
      by (simp add: ToUpper_char_def Let_def n_def [symmetric] mod_less [OF m])
    from 2 have e: "n - 32 - 65 + 10 = n - 97 + 10" by linarith
    from 2 have l: "fromHexChar c = Some (of_nat (n - 97 + 10))"
      by (simp add: fromHexChar_def Let_def n_def [symmetric])
    from 2 have r: "\<not> (48 \<le> n - 32 \<and> n - 32 \<le> 57)" "\<not> (97 \<le> n - 32 \<and> n - 32 \<le> 102)"
      "65 \<le> n - 32 \<and> n - 32 \<le> 70"
      by linarith+
    have "fromHexChar (ToUpper_char c) = Some (of_nat (n - 32 - 65 + 10))"
      unfolding fromHexChar_def Let_def u by (simp only: r if_True if_False simp_thms)
    with l e show ?thesis by simp
  next
    case 3
    have m: "n - 32 < 256"
      by (rule le_less_trans [OF diff_le_self n])
    from 3 have u: "(of_char (ToUpper_char c) :: nat) = n - 32"
      by (simp add: ToUpper_char_def Let_def n_def [symmetric] mod_less [OF m])
    from 3 have l: "fromHexChar c = None"
      by (simp add: fromHexChar_def Let_def n_def [symmetric])
    from 3 have r: "\<not> (48 \<le> n - 32 \<and> n - 32 \<le> 57)" "\<not> (97 \<le> n - 32 \<and> n - 32 \<le> 102)"
      "\<not> (65 \<le> n - 32 \<and> n - 32 \<le> 70)"
      by linarith+
    have "fromHexChar (ToUpper_char c) = None"
      unfolding fromHexChar_def Let_def u by (simp only: r if_True if_False simp_thms)
    with l show ?thesis by simp
  next
    case 4
    then show ?thesis by (simp add: ToUpper_char_def Let_def n_def [symmetric])
  qed
qed

lemma hex_DecodeString_ToUpper: "hex_DecodeString (ToUpper s) = hex_DecodeString s"
  by (induction s rule: hex_DecodeString.induct)
     (auto simp add: ToUpper_def fromHexChar_ToUpper_char split: option.splits)

lemma Split_nonempty: "Split s sep \<noteq> []"
  by (induction s) (auto split: list.splits)

lemma concat_Split: "concat (Split s sep) = filter (\<lambda>c. c \<noteq> sep) s"
  by (induction s) (auto split: list.splits simp: Split_nonempty)

lemma foldl_append_concat: "foldl (@) acc xss = acc @ concat xss"
  by (induction xss arbitrary: acc) simp_all

lemma Decode_0X: "Decode (CHR ''0'' # CHR ''X'' # t) = hex_DecodeString t"
  by (simp add: Decode_def has0xPrefix_def)

lemma ToUpper_0X: "ToUpper (''0X'' @ t) = CHR ''0'' # CHR ''X'' # ToUpper t"
  by (simp add: ToUpper_def ToUpper_char_def)

lemma GenMsgSeq_eq: "GenMsgSeq uid = hex_DecodeString (filter (\<lambda>c. c \<noteq> CHR ''-'') uid)"
  unfolding GenMsgSeq_def Let_def foldl_append_concat concat_Split ToUpper_0X Decode_0X
  by (rule hex_DecodeString_ToUpper)

lemma hex_DecodeString_digits:
  "list_all is_hex_digit t \<Longrightarrow> even (length t) \<Longrightarrow>
   \<exists>bs. hex_DecodeString t = Inr bs \<and> 2 * length bs = length t"
proof (induction t rule: hex_DecodeString.induct)
  case 1
  then show ?case by simp
next
  case (2 p)
  then show ?case by simp
next
  case (3 p q rest)
  from "3.prems" obtain a b where a: "fromHexChar p = Some a" and b: "fromHexChar q = Some b"
    by (auto simp: is_hex_digit_def)
  from "3.prems" have "list_all is_hex_digit rest" "even (length rest)" by simp_all
  from "3.IH" [OF a b this] obtain bs where
    "hex_DecodeString rest = Inr bs" "2 * length bs = length rest" by blast
  with a b show ?case by simp
qed

lemma hex_DecodeString_errors:
  "hex_DecodeString t = Inl e \<Longrightarrow> e = ErrOddLength \<or> e = ErrSyntax"
  by (induction t arbitrary: e rule: hex_DecodeString.induct)
     (auto split: option.splits sum.splits)

lemma hex_DecodeString_nth:
  "hex_DecodeString t = Inr bs \<Longrightarrow> k < length bs \<Longrightarrow>
   \<exists>a b. fromHexChar (t ! (2 * k)) = Some a \<and> fromHexChar (t ! (2 * k + 1)) = Some b \<and>
         bs ! k = push_bit 4 a OR b"
proof (induction t arbitrary: bs k rule: hex_DecodeString.induct)
  case 1
  then show ?case by simp
next
  case (2 p)
  then show ?case by (simp split: option.splits)
next
  case (3 p q rest)
  from "3.prems"(1) obtain a b bs' where
    a: "fromHexChar p = Some a" and b: "fromHexChar q = Some b"
    and r: "hex_DecodeString rest = Inr bs'" and bs: "bs = (push_bit 4 a OR b) # bs'"
    by (auto split: option.splits sum.splits)
  show ?case
  proof (cases k)
    case 0
    with a b bs show ?thesis by simp
  next
    case (Suc j)
    with "3.prems"(2) bs have "j < length bs'" by simp
    from "3.IH" [OF a b r this] Suc bs show ?thesis by simp
  qed
qed

lemma uuid_groups:
  assumes "is_uuid_text uid"
  obtains g1 g2 g3 g4 g5 where
    "Split uid (CHR ''-'') = [g1, g2, g3, g4, g5]"
    "length g1 = 8" "length g2 = 4" "length g3 = 4" "length g4 = 4" "length g5 = 12"
proof -
  from assms have m: "map length (Split uid (CHR ''-'')) = [8, 4, 4, 4, 12]"
    by (simp add: is_uuid_text_def)
  then obtain g1 g2 g3 g4 g5 where "Split uid (CHR ''-'') = [g1, g2, g3, g4, g5]"
    by (auto simp: map_eq_Cons_conv)
  with m that show ?thesis by simp
qed

lemma uuid_stripped:
  assumes "is_uuid_text uid"
  shows "length (filter (\<lambda>c. c \<noteq> CHR ''-'') uid) = 32"
    and "list_all is_hex_digit (filter (\<lambda>c. c \<noteq> CHR ''-'') uid)"
proof -
  from assms obtain g1 g2 g3 g4 g5 where
    s: "Split uid (CHR ''-'') = [g1, g2, g3, g4, g5]"
    and l: "length g1 = 8" "length g2 = 4" "length g3 = 4" "length g4 = 4" "length g5 = 12"
    by (rule uuid_groups)
  have c: "filter (\<lambda>c. c \<noteq> CHR ''-'') uid = concat (Split uid (CHR ''-''))"
    by (simp add: concat_Split)
  show "length (filter (\<lambda>c. c \<noteq> CHR ''-'') uid) = 32"
    unfolding c s using l by simp
  from assms show "list_all is_hex_digit (filter (\<lambda>c. c \<noteq> CHR ''-'') uid)"
    unfolding c by (simp add: is_uuid_text_def)
qed

lemma GenMsgSeq_uuid:
  assumes "is_uuid_text uid"
  shows "\<exists>bs. GenMsgSeq uid = Inr bs \<and> length bs = 16"
proof -
  let ?t = "filter (\<lambda>c. c \<noteq> CHR ''-'') uid"
  from uuid_stripped [OF assms] have "list_all is_hex_digit ?t" "even (length ?t)"
    by simp_all
  from hex_DecodeString_digits [OF this] obtain bs where
    "hex_DecodeString ?t = Inr bs" "2 * length bs = length ?t" by blast
  with uuid_stripped(1) [OF assms] show ?thesis
    by (simp add: GenMsgSeq_eq)
qed

lemma hex_DecodeString_length:
  "hex_DecodeString t = Inr bs \<Longrightarrow> 2 * length bs = length t"
proof (induction t arbitrary: bs rule: hex_DecodeString.induct)
  case 1
  then show ?case by simp
next
  case (2 p)
  then show ?case by (simp split: option.splits)
next
  case (3 p q rest)
  from "3.prems" obtain a b bs' where
    a: "fromHexChar p = Some a" and b: "fromHexChar q = Some b"
    and r: "hex_DecodeString rest = Inr bs'" and bs: "bs = (push_bit 4 a OR b) # bs'"
    by (auto split: option.splits sum.splits)
  from "3.IH" [OF a b r] bs show ?case by simp
qed

lemma GenMsgSeq_length:
  "GenMsgSeq uid = Inr bs \<Longrightarrow> 2 * length bs = length (filter (\<lambda>c. c \<noteq> CHR ''-'') uid)"
  by (simp add: GenMsgSeq_eq hex_DecodeString_length)

text \<open>
  Claim C6, as stated, fails: the call with the empty identifier text returns without
  error, and what it returns is not 16 bytes but none.
\<close>

theorem GenMsgSeq_not_sixteen_counterexample:
  "GenMsgSeq [] = Inr [] \<and> length ([] :: byte list) \<noteq> 16"
  by code_simp

text \<open>
  Claim C6, amended. When the identifier source returns the text of an identifier (five
  groups of 8, 4, 4, 4 and 12 hexadecimal digits between dashes), \<open>GenMsgSeq\<close> returns
  without error exactly 16 bytes, and they are the bytes the 32 digits denote once the
  dashes are removed. Every call that returns without error returns one byte for every
  two characters of the text other than dashes: 16 bytes exactly when there are 32 such
  characters.
\<close>

theorem GenMsgSeq_sixteen_raw_bytes:
  "(is_uuid_text uid \<longrightarrow>
      (\<exists>cs. GenMsgSeq uid = Inr cs \<and> length cs = 16 \<and>
         hex_DecodeString (filter (\<lambda>c. c \<noteq> CHR ''-'') uid) = Inr cs)) \<and>
   (GenMsgSeq uid = Inr bs \<longrightarrow>
      2 * length bs = length (filter (\<lambda>c. c \<noteq> CHR ''-'') uid)) \<and>
   (GenMsgSeq uid = Inr bs \<longrightarrow>
      (length bs = 16 \<longleftrightarrow> length (filter (\<lambda>c. c \<noteq> CHR ''-'') uid) = 32))"
proof (intro conjI impI)
  assume "is_uuid_text uid"
  from GenMsgSeq_uuid [OF this]
  show "\<exists>cs. GenMsgSeq uid = Inr cs \<and> length cs = 16 \<and>
         hex_DecodeString (filter (\<lambda>c. c \<noteq> CHR ''-'') uid) = Inr cs"
    by (auto simp: GenMsgSeq_eq)
next
  assume "GenMsgSeq uid = Inr bs"
  then show "2 * length bs = length (filter (\<lambda>c. c \<noteq> CHR ''-'') uid)"
    by (rule GenMsgSeq_length)
next
  assume "GenMsgSeq uid = Inr bs"
  from GenMsgSeq_length [OF this]
  show "length bs = 16 \<longleftrightarrow> length (filter (\<lambda>c. c \<noteq> CHR ''-'') uid) = 32"
    by auto
qed

theorem GenMsgSeq_sixteen_raw_bytes_witness:
  "is_uuid_text ''123e4567-e89b-42d3-a456-426614174000'' \<and>
   GenMsgSeq ''123e4567-e89b-42d3-a456-426614174000'' =
     Inr [0x12, 0x3e, 0x45, 0x67, 0xe8, 0x9b, 0x42, 0xd3,
          0xa4, 0x56, 0x42, 0x66, 0x14, 0x17, 0x40, 0x00] \<and>
   (\<exists>cs. GenMsgSeq ''123e4567-e89b-42d3-a456-426614174000'' = Inr cs \<and> length cs = 16) \<and>
   length (filter (\<lambda>c. c \<noteq> CHR ''-'') ''123e4567-e89b-42d3-a456-426614174000'') = 32"
proof -
  have u: "is_uuid_text ''123e4567-e89b-42d3-a456-426614174000''"
    by code_simp
  have g: "GenMsgSeq ''123e4567-e89b-42d3-a456-426614174000'' =
     Inr [0x12, 0x3e, 0x45, 0x67, 0xe8, 0x9b, 0x42, 0xd3,
          0xa4, 0x56, 0x42, 0x66, 0x14, 0x17, 0x40, 0x00]"
    by code_simp
  from u g
    GenMsgSeq_sixteen_raw_bytes [of "''123e4567-e89b-42d3-a456-426614174000''"
      "[0x12, 0x3e, 0x45, 0x67, 0xe8, 0x9b, 0x42, 0xd3,
        0xa4, 0x56, 0x42, 0x66, 0x14, 0x17, 0x40, 0x00]"]
  show ?thesis by auto
qed

lemma GenMsgSeq_v4:
  assumes "is_uuid_v4_text uid"
  shows "\<exists>bs. GenMsgSeq uid = Inr bs \<and> length bs = 16 \<and> bs \<noteq> replicate 16 0"
proof -
  let ?t = "filter (\<lambda>c. c \<noteq> CHR ''-'') uid"
  from assms have u: "is_uuid_text uid" by (simp add: is_uuid_v4_text_def)
  from u obtain g1 g2 g3 g4 g5 where
    s: "Split uid (CHR ''-'') = [g1, g2, g3, g4, g5]"
    and l: "length g1 = 8" "length g2 = 4" "length g3 = 4" "length g4 = 4" "length g5 = 12"
    by (rule uuid_groups)
  from assms s have "take 1 g3 = ''4''" by (simp add: is_uuid_v4_text_def)
  with l(3) have g3: "g3 ! 0 = CHR ''4''" by (cases g3) simp_all
  have c: "?t = g1 @ g2 @ g3 @ g4 @ g5"
    using s by (simp add: concat_Split [symmetric])
  have t12: "?t ! 12 = CHR ''4''"
    unfolding c using l g3 by (simp add: nth_append)
  from GenMsgSeq_uuid [OF u] obtain bs where
    bs: "GenMsgSeq uid = Inr bs" "length bs = 16" by blast
  then have d: "hex_DecodeString ?t = Inr bs" by (simp add: GenMsgSeq_eq)
  from bs have "6 < length bs" by simp
  from hex_DecodeString_nth [OF d this] t12 obtain b where
    "bs ! 6 = push_bit 4 4 OR b"
    by (auto simp: fromHexChar_def)
  then have "bs ! 6 \<noteq> 0" by (simp add: or_eq_0_iff)
  then have "bs \<noteq> replicate 16 0" by auto
  with bs show ?thesis by simp
qed

lemma GenMsgSeq_errors:
  "GenMsgSeq uid = Inl e \<Longrightarrow> e = ErrOddLength \<or> e = ErrSyntax"
  by (simp add: GenMsgSeq_eq hex_DecodeString_errors)

text \<open>
  Claim C7, as stated, fails: when the source returns no identifier (the empty text),
  \<open>GenMsgSeq\<close> returns no error, and its result is not 16 bytes but none.
\<close>

theorem GenMsgSeq_empty_text_counterexample:
  "GenMsgSeq [] = Inr []"
  by code_simp

text \<open>
  Claim C7, amended. For the text of a version 4 identifier \<open>GenMsgSeq\<close> returns
  without error 16 bytes that are not all zero: the seventh byte carries the version
  digit. \<open>GenMsgSeq\<close> has no error of its own for a failing source: its result is that
  of decoding the digits left when the dashes are removed, its only errors are an odd
  number of digits and a character that is no digit, and the empty text gives the empty
  byte sequence and no error.
\<close>

theorem GenMsgSeq_v4_not_zero:
  "(is_uuid_v4_text uid \<longrightarrow>
      (\<exists>bs. GenMsgSeq uid = Inr bs \<and> length bs = 16 \<and> bs \<noteq> replicate 16 0)) \<and>
   GenMsgSeq uid = hex_DecodeString (filter (\<lambda>c. c \<noteq> CHR ''-'') uid) \<and>
   (GenMsgSeq uid = Inl e \<longrightarrow> e = ErrOddLength \<or> e = ErrSyntax) \<and>
   GenMsgSeq [] = Inr []"
proof -
  have "GenMsgSeq [] = Inr []" by code_simp
  then show ?thesis
    using GenMsgSeq_v4 [of uid] GenMsgSeq_errors [of uid e] GenMsgSeq_eq [of uid]
    by blast
qed

theorem GenMsgSeq_v4_not_zero_witness:
  "is_uuid_v4_text ''123e4567-e89b-42d3-a456-426614174000'' \<and>
   (\<exists>bs. GenMsgSeq ''123e4567-e89b-42d3-a456-426614174000'' = Inr bs \<and>
      length bs = 16 \<and> bs \<noteq> replicate 16 0) \<and>
   GenMsgSeq ''123e4567-e89b-42d3-a456-42661417400'' = Inl ErrOddLength"
proof -
  have u: "is_uuid_v4_text ''123e4567-e89b-42d3-a456-426614174000''"
    by code_simp
  have e: "GenMsgSeq ''123e4567-e89b-42d3-a456-42661417400'' = Inl ErrOddLength"
    by code_simp
  from u GenMsgSeq_v4_not_zero [of "''123e4567-e89b-42d3-a456-426614174000''" ErrOddLength]
  have "\<exists>bs. GenMsgSeq ''123e4567-e89b-42d3-a456-426614174000'' = Inr bs \<and>
      length bs = 16 \<and> bs \<noteq> replicate 16 0"
    by blast
  with u e show ?thesis by blast
qed

subsection \<open>Canonical encoding\<close>

lemma big_endian_minimal_0: "big_endian_minimal 0 = []"
  by (simp add: big_endian_minimal.simps)

lemma big_endian_minimal_pos:
  "0 < n \<Longrightarrow> big_endian_minimal n = big_endian_minimal (n div 256) @ [of_nat (n mod 256)]"
  by (subst big_endian_minimal.simps) simp

lemma big_endian_minimal_eq_Nil: "big_endian_minimal n = [] \<longleftrightarrow> n = 0"
  by (cases "n = 0") (simp_all add: big_endian_minimal_0 big_endian_minimal_pos)

lemma be_val_snoc: "be_val (bs @ [b]) = 256 * be_val bs + unat b"
  by (simp add: be_val_def)

lemma unat_byte_mod: "unat (of_nat (n mod 256) :: byte) = n mod 256"
  by (simp add: unat_of_nat)

lemma be_val_big_endian_minimal: "be_val (big_endian_minimal n) = n"
proof (induction n rule: big_endian_minimal.induct)
  case (1 n)
  show ?case
  proof (cases "n = 0")
    case True
    then show ?thesis by (simp add: big_endian_minimal_0 be_val_def)
  next
    case False
    with 1 have "be_val (big_endian_minimal (n div 256)) = n div 256" by simp
    with False show ?thesis
      by (simp add: big_endian_minimal_pos be_val_snoc unat_byte_mod)
  qed
qed



lemma length_big_endian_minimal_le:
  "n < 256 ^ k \<Longrightarrow> length (big_endian_minimal n) \<le> k"
proof (induction k arbitrary: n)
  case 0
  then show ?case by (simp add: big_endian_minimal_0)
next
  case (Suc k)
  show ?case
  proof (cases "n = 0")
    case True
    then show ?thesis by (simp add: big_endian_minimal_0)
  next
    case False
    from Suc.prems have "n div 256 < 256 ^ k"
      by (simp add: less_mult_imp_div_less mult.commute)
    from Suc.IH [OF this] False show ?thesis
      by (simp add: big_endian_minimal_pos)
  qed
qed



lemma hd_big_endian_minimal: "n \<noteq> 0 \<Longrightarrow> hd (big_endian_minimal n) \<noteq> 0"
proof (induction n rule: big_endian_minimal.induct)
  case (1 n)
  show ?case
  proof (cases "n div 256 = 0")
    case True
    with "1.prems" have "n < 256" "n mod 256 = n" by (auto simp: div_eq_0_iff)
    with "1.prems" have "(of_nat (n mod 256) :: byte) \<noteq> 0"
      by (simp add: of_nat_0_neq unat_eq_0 [symmetric] unat_of_nat del: unat_eq_0)
    with True "1.prems" show ?thesis
      by (simp add: big_endian_minimal_pos big_endian_minimal_0)
  next
    case False
    with "1.IH" "1.prems" have "hd (big_endian_minimal (n div 256)) \<noteq> 0" by simp
    moreover from False have "big_endian_minimal (n div 256) \<noteq> []"
      by (simp add: big_endian_minimal_eq_Nil)
    ultimately show ?thesis using "1.prems"
      by (simp add: big_endian_minimal_pos)
  qed
qed

lemma be_val_bound: "be_val bs < 256 ^ length bs"
proof (induction bs rule: rev_induct)
  case Nil
  then show ?case by (simp add: be_val_def)
next
  case (snoc b bs)
  have "unat b < 256" using unsigned_less [of b, where ?'a = nat] by simp
  with snoc have "256 * be_val bs + unat b < 256 * 256 ^ length bs"
    by linarith
  then show ?case by (simp add: be_val_snoc)
qed

lemma big_endian_minimal_shortest:
  "be_val bs = n \<Longrightarrow> length (big_endian_minimal n) \<le> length bs"
  using be_val_bound [of bs] by (auto intro: length_big_endian_minimal_le)

text \<open>
  Claim C3. An integer field is encoded as the byte string of its minimal big-endian
  bytes: the bytes stand for the integer, there is no leading zero byte, no byte string
  for the same integer is shorter, and zero is the empty byte string, whose encoding is
  the single byte 0x80 and not that of a zero byte. The integer fields of a header are
  encoded so.
\<close>

theorem integer_encoding_minimal_big_endian:
  "encode (Uint i) = Inr (encode_bytes (big_endian_minimal (unat i))) \<and>
   (0 \<le> k \<longrightarrow> encode (BigInt k) = Inr (encode_bytes (big_endian_minimal (nat k)))) \<and>
   be_val (big_endian_minimal n) = n \<and>
   (n \<noteq> 0 \<longrightarrow> hd (big_endian_minimal n) \<noteq> 0) \<and>
   (be_val bs = n \<longrightarrow> length (big_endian_minimal n) \<le> length bs) \<and>
   big_endian_minimal 0 = [] \<and>
   encode (Uint 0) = Inr [0x80] \<and> encode (BigInt 0) = Inr [0x80] \<and>
   encode (Bytes []) = Inr [0x80] \<and> encode (Bytes [0]) = Inr [0] \<and>
   (0 \<le> Difficulty h \<and> 0 \<le> Number h \<longrightarrow>
      encode_all (Header_fields h) =
        Inr (concat (map encode_bytes
          [ParentHash h, UncleHash h, Coinbase h, Root h, TxHash h, ReceiptHash h, Bloom h,
           big_endian_minimal (nat (Difficulty h)), big_endian_minimal (nat (Number h)),
           big_endian_minimal (unat (GasLimit h)), big_endian_minimal (unat (GasUsed h)),
           big_endian_minimal (unat (Time h)),
           Extra h, MixDigest h, RandomId h])))"
proof -
  have "encode (Uint 0) = Inr [0x80]" "encode (BigInt 0) = Inr [0x80]"
    "encode (Bytes []) = Inr [0x80]" "encode (Bytes [0]) = Inr [0]"
    by (simp_all add: big_endian_minimal_0 encode_bytes_def string_header_def)
  moreover have "0 \<le> Difficulty h \<and> 0 \<le> Number h \<longrightarrow>
      encode_all (Header_fields h) =
        Inr (concat (map encode_bytes
          [ParentHash h, UncleHash h, Coinbase h, Root h, TxHash h, ReceiptHash h, Bloom h,
           big_endian_minimal (nat (Difficulty h)), big_endian_minimal (nat (Number h)),
           big_endian_minimal (unat (GasLimit h)), big_endian_minimal (unat (GasUsed h)),
           big_endian_minimal (unat (Time h)),
           Extra h, MixDigest h, RandomId h]))"
    by (simp add: Header_fields_def)
  ultimately show ?thesis
    using be_val_big_endian_minimal [of n] hd_big_endian_minimal [of n]
      big_endian_minimal_shortest [of bs n] big_endian_minimal_0
    by simp
qed

theorem integer_encoding_minimal_big_endian_witness:
  "(0::int) \<le> 1024 \<and> encode (BigInt 1024) = Inr [0x82, 0x04, 0x00] \<and>
   (1024::nat) \<noteq> 0 \<and> big_endian_minimal 1024 = [0x04, 0x00] \<and>
   be_val [0x00, 0x04, 0x00] = 1024 \<and>
   length (big_endian_minimal 1024) \<le> length [0x00, 0x04, 0x00 :: byte] \<and>
   0 \<le> Difficulty zero_Header \<and> 0 \<le> Number zero_Header \<and>
   (\<exists>bs. encode_all (Header_fields zero_Header) = Inr bs)"
proof -
  have m: "big_endian_minimal 1024 = [0x04, 0x00]" by code_simp
  have e: "encode (BigInt 1024) = Inr [0x82, 0x04, 0x00]" by code_simp
  have v: "be_val [0x00, 0x04, 0x00] = 1024" by (simp add: be_val_def)
  have z: "0 \<le> Difficulty zero_Header" "0 \<le> Number zero_Header"
    by (simp_all add: zero_Header_def)
  from m e v z
    integer_encoding_minimal_big_endian [of 0 1024 1024 "[0x00, 0x04, 0x00]" zero_Header]
  show ?thesis by simp
qed






lemma encode_all_Header_fields:
  assumes "0 \<le> Difficulty h" "0 \<le> Number h"
  shows "encode_all (Header_fields h) = Inr (concat (map encode_bytes (Header_strings h)))"
  using assms by (simp add: Header_fields_def Header_strings_def)

lemma EncodeHeader_nonneg:
  assumes "0 \<le> Difficulty h" "0 \<le> Number h"
  shows "EncodeHeader h =
    Inr (list_header (length (concat (map encode_bytes (Header_strings h))))
           @ concat (map encode_bytes (Header_strings h)))"
  by (simp add: EncodeHeader_def encode_all_Header_fields [OF assms])










lemma Hash_EncodeHeader: "EncodeHeader h = Inr b \<Longrightarrow> Hash h = LegacyKeccak256 b"
  by (simp add: Hash_def rlpHash_def EncodeHeader_def)

text \<open>
  A header with a negative difficulty or number has no encoding; \<open>rlpHash\<close> does not
  look at the error, and the hash is the digest of no bytes.
\<close>

lemma EncodeHeader_negative:
  "Difficulty h < 0 \<or> Number h < 0 \<Longrightarrow> EncodeHeader h = Inl ErrNegativeBigInt"
  by (auto simp: EncodeHeader_def Header_fields_def)

lemma Hash_negative:
  "Difficulty h < 0 \<or> Number h < 0 \<Longrightarrow> Hash h = LegacyKeccak256 []"
  using EncodeHeader_negative [of h] by (simp add: Hash_def rlpHash_def EncodeHeader_def)


subsection \<open>Content hash\<close>

lemma length_theta_x: "length (theta_x d a) = length a"
  by (induction d a rule: theta_x.induct) simp_all

lemma length_rho_pi: "length (rho_pi a) = length a"
  by (induction a rule: rho_pi.induct) simp_all

lemma length_chi: "length (chi a) = length a"
  by (induction a rule: chi.induct) simp_all

lemma length_iota: "length (iota rc a) = length a"
  by (cases a) simp_all

lemma length_keccak_round: "length (keccak_round a rc) = length a"
  by (simp add: keccak_round_def theta_def length_iota length_chi length_rho_pi length_theta_x)

lemma length_foldl_keccak_round: "length (foldl keccak_round a rcs) = length a"
  by (induction rcs arbitrary: a) (simp_all add: length_keccak_round)

lemma length_keccakF1600: "length (keccakF1600 a) = length a"
  by (simp add: keccakF1600_def length_foldl_keccak_round)

lemma length_xor_lanes: "length (xor_lanes a ls) = length a"
  by (induction a ls rule: xor_lanes.induct) simp_all

lemma length_absorb: "length (absorb a bs) = length a"
proof (induction a bs rule: absorb.induct)
  case (1 a bs)
  show ?case
  proof (cases "length bs < rate")
    case True
    then show ?thesis by (subst absorb.simps) simp
  next
    case False
    with 1 show ?thesis
      by (subst absorb.simps) (simp add: length_keccakF1600 xor_in_def length_xor_lanes)
  qed
qed

lemma length_concat_lane_bytes: "length (concat (map lane_bytes a)) = 8 * length a"
  by (induction a) (simp_all add: lane_bytes_def)

lemma length_squeeze: "length (squeeze a) = min 32 (8 * length a)"
  by (simp add: squeeze_def length_concat_lane_bytes)

lemma length_sponge: "length (sponge ds msg) = 32"
  by (simp add: sponge_def length_squeeze length_absorb zero_state_def)

lemma pad_q: "0 < rate - length msg mod rate"
  by (simp add: rate_def)















































































































































































lemma big_endian_minimal_256: "big_endian_minimal 256 = [0x01, 0x00]"
  by code_simp

lemma big_endian_minimal_493: "big_endian_minimal 493 = [0x01, 0xED]"
  by code_simp

lemma EncodeHeader_zero_Header:
  "EncodeHeader zero_Header =
     Inr ([0xF9, 0x01, 0xED] @
          (0xA0 # replicate 32 0) @ (0xA0 # replicate 32 0) @ (0x94 # replicate 20 0) @
          (0xA0 # replicate 32 0) @ (0xA0 # replicate 32 0) @ (0xA0 # replicate 32 0) @
          (0xB9 # 0x01 # 0x00 # replicate 256 0) @
          [0x80, 0x80, 0x80, 0x80, 0x80, 0x80] @
          (0xA0 # replicate 32 0) @ (0x88 # replicate 8 0))"
  by (simp add: EncodeHeader_def Header_fields_def zero_Header_def encode_bytes_def
      string_header_def list_header_def big_endian_minimal_0 big_endian_minimal_256
      big_endian_minimal_493)





subsection \<open>Header identity\<close>

lemma length_Hash: "length (Hash h) = 32"
  by (simp add: Hash_def rlpHash_def LegacyKeccak256_def length_sponge)

text \<open>
  Claim C1. The identity of a header is determined by its fifteen fields: headers whose
  fields are pairwise equal have the same hash; the hash has 32 bytes; and it is the
  digest, by the Keccak-256 hasher, of the encoding of the list of the fifteen fields in
  the order of their declaration, which exists when difficulty and number are not
  negative.
\<close>

theorem Header_Hash_deterministic:
  "(ParentHash h = ParentHash h' \<and> UncleHash h = UncleHash h' \<and> Coinbase h = Coinbase h' \<and>
    Root h = Root h' \<and> TxHash h = TxHash h' \<and> ReceiptHash h = ReceiptHash h' \<and>
    Bloom h = Bloom h' \<and> Difficulty h = Difficulty h' \<and> Number h = Number h' \<and>
    GasLimit h = GasLimit h' \<and> GasUsed h = GasUsed h' \<and> Time h = Time h' \<and>
    Extra h = Extra h' \<and> MixDigest h = MixDigest h' \<and> RandomId h = RandomId h'
      \<longrightarrow> Hash h = Hash h') \<and>
   length (Hash h) = 32 \<and>
   (encode (List
        [Bytes (ParentHash h), Bytes (UncleHash h), Bytes (Coinbase h), Bytes (Root h),
         Bytes (TxHash h), Bytes (ReceiptHash h), Bytes (Bloom h),
         BigInt (Difficulty h), BigInt (Number h),
         Uint (GasLimit h), Uint (GasUsed h), Uint (Time h),
         Bytes (Extra h), Bytes (MixDigest h), Bytes (RandomId h)]) = Inr bs
      \<longrightarrow> Hash h = LegacyKeccak256 bs) \<and>
   (0 \<le> Difficulty h \<and> 0 \<le> Number h \<longrightarrow>
      (\<exists>cs. encode (List
        [Bytes (ParentHash h), Bytes (UncleHash h), Bytes (Coinbase h), Bytes (Root h),
         Bytes (TxHash h), Bytes (ReceiptHash h), Bytes (Bloom h),
         BigInt (Difficulty h), BigInt (Number h),
         Uint (GasLimit h), Uint (GasUsed h), Uint (Time h),
         Bytes (Extra h), Bytes (MixDigest h), Bytes (RandomId h)]) = Inr cs))"
proof (intro conjI impI)
  assume "ParentHash h = ParentHash h' \<and> UncleHash h = UncleHash h' \<and> Coinbase h = Coinbase h' \<and>
    Root h = Root h' \<and> TxHash h = TxHash h' \<and> ReceiptHash h = ReceiptHash h' \<and>
    Bloom h = Bloom h' \<and> Difficulty h = Difficulty h' \<and> Number h = Number h' \<and>
    GasLimit h = GasLimit h' \<and> GasUsed h = GasUsed h' \<and> Time h = Time h' \<and>
    Extra h = Extra h' \<and> MixDigest h = MixDigest h' \<and> RandomId h = RandomId h'"
  then have "Header_fields h = Header_fields h'" by (simp add: Header_fields_def)
  then show "Hash h = Hash h'" by (simp add: Hash_def)
next
  show "length (Hash h) = 32" by (rule length_Hash)
next
  assume "encode (List
        [Bytes (ParentHash h), Bytes (UncleHash h), Bytes (Coinbase h), Bytes (Root h),
         Bytes (TxHash h), Bytes (ReceiptHash h), Bytes (Bloom h),
         BigInt (Difficulty h), BigInt (Number h),
         Uint (GasLimit h), Uint (GasUsed h), Uint (Time h),
         Bytes (Extra h), Bytes (MixDigest h), Bytes (RandomId h)]) = Inr bs"
  then have "EncodeHeader h = Inr bs" by (simp only: EncodeHeader_def Header_fields_def)
  then show "Hash h = LegacyKeccak256 bs" by (rule Hash_EncodeHeader)
next
  assume "0 \<le> Difficulty h \<and> 0 \<le> Number h"
  then have "\<exists>cs. EncodeHeader h = Inr cs" by (simp add: EncodeHeader_nonneg)
  then show "\<exists>cs. encode (List
        [Bytes (ParentHash h), Bytes (UncleHash h), Bytes (Coinbase h), Bytes (Root h),
         Bytes (TxHash h), Bytes (ReceiptHash h), Bytes (Bloom h),
         BigInt (Difficulty h), BigInt (Number h),
         Uint (GasLimit h), Uint (GasUsed h), Uint (Time h),
         Bytes (Extra h), Bytes (MixDigest h), Bytes (RandomId h)]) = Inr cs"
    by (simp only: EncodeHeader_def Header_fields_def)
qed

theorem Header_Hash_deterministic_witness:
  "0 \<le> Difficulty zero_Header \<and> 0 \<le> Number zero_Header \<and>
   EncodeHeader zero_Header =
     Inr ([0xF9, 0x01, 0xED] @
          (0xA0 # replicate 32 0) @ (0xA0 # replicate 32 0) @ (0x94 # replicate 20 0) @
          (0xA0 # replicate 32 0) @ (0xA0 # replicate 32 0) @ (0xA0 # replicate 32 0) @
          (0xB9 # 0x01 # 0x00 # replicate 256 0) @
          [0x80, 0x80, 0x80, 0x80, 0x80, 0x80] @
          (0xA0 # replicate 32 0) @ (0x88 # replicate 8 0)) \<and>
   Hash zero_Header =
     LegacyKeccak256
       ([0xF9, 0x01, 0xED] @
          (0xA0 # replicate 32 0) @ (0xA0 # replicate 32 0) @ (0x94 # replicate 20 0) @
          (0xA0 # replicate 32 0) @ (0xA0 # replicate 32 0) @ (0xA0 # replicate 32 0) @
          (0xB9 # 0x01 # 0x00 # replicate 256 0) @
          [0x80, 0x80, 0x80, 0x80, 0x80, 0x80] @
          (0xA0 # replicate 32 0) @ (0x88 # replicate 8 0)) \<and>
   Hash (zero_Header\<lparr>Extra := []\<rparr>) = Hash zero_Header"
proof -
  let ?h = "zero_Header\<lparr>Extra := []\<rparr>"
  have z: "0 \<le> Difficulty zero_Header" "0 \<le> Number zero_Header"
    by (simp_all add: zero_Header_def)
  have e: "encode (List
        [Bytes (ParentHash zero_Header), Bytes (UncleHash zero_Header), Bytes (Coinbase zero_Header), Bytes (Root zero_Header),
         Bytes (TxHash zero_Header), Bytes (ReceiptHash zero_Header), Bytes (Bloom zero_Header),
         BigInt (Difficulty zero_Header), BigInt (Number zero_Header),
         Uint (GasLimit zero_Header), Uint (GasUsed zero_Header), Uint (Time zero_Header),
         Bytes (Extra zero_Header), Bytes (MixDigest zero_Header), Bytes (RandomId zero_Header)]) =
     Inr ([0xF9, 0x01, 0xED] @
          (0xA0 # replicate 32 0) @ (0xA0 # replicate 32 0) @ (0x94 # replicate 20 0) @
          (0xA0 # replicate 32 0) @ (0xA0 # replicate 32 0) @ (0xA0 # replicate 32 0) @
          (0xB9 # 0x01 # 0x00 # replicate 256 0) @
          [0x80, 0x80, 0x80, 0x80, 0x80, 0x80] @
          (0xA0 # replicate 32 0) @ (0x88 # replicate 8 0))"
    using EncodeHeader_zero_Header by (simp only: EncodeHeader_def Header_fields_def)
  have f: "ParentHash ?h = ParentHash zero_Header \<and> UncleHash ?h = UncleHash zero_Header \<and>
    Coinbase ?h = Coinbase zero_Header \<and> Root ?h = Root zero_Header \<and>
    TxHash ?h = TxHash zero_Header \<and> ReceiptHash ?h = ReceiptHash zero_Header \<and>
    Bloom ?h = Bloom zero_Header \<and> Difficulty ?h = Difficulty zero_Header \<and>
    Number ?h = Number zero_Header \<and> GasLimit ?h = GasLimit zero_Header \<and>
    GasUsed ?h = GasUsed zero_Header \<and> Time ?h = Time zero_Header \<and>
    Extra ?h = Extra zero_Header \<and> MixDigest ?h = MixDigest zero_Header \<and>
    RandomId ?h = RandomId zero_Header"
    by (simp add: zero_Header_def)
  from f Header_Hash_deterministic [of ?h zero_Header]
  have a: "Hash ?h = Hash zero_Header" by blast
  from e Header_Hash_deterministic [of zero_Header zero_Header]
  have b: "Hash zero_Header =
     LegacyKeccak256
       ([0xF9, 0x01, 0xED] @
          (0xA0 # replicate 32 0) @ (0xA0 # replicate 32 0) @ (0x94 # replicate 20 0) @
          (0xA0 # replicate 32 0) @ (0xA0 # replicate 32 0) @ (0xA0 # replicate 32 0) @
          (0xB9 # 0x01 # 0x00 # replicate 256 0) @
          [0x80, 0x80, 0x80, 0x80, 0x80, 0x80] @
          (0xA0 # replicate 32 0) @ (0x88 # replicate 8 0))"
    by blast
  from z a b EncodeHeader_zero_Header show ?thesis by blast
qed

subsection \<open>Encoding and identity\<close>






end
